theory Spec2Isabelle
  imports Main
begin

section \<open>Belgian national number (be/nn.ts)\<close>

text \<open>
  A shallow embedding of the validator of the Belgian national number.  The module
  exports \<open>compact\<close>, \<open>format\<close> and \<open>validate\<close>; every other function is private to
  it and is only reached through \<open>validate\<close>.  The wall clock (\<open>Date.now()\<close>) is the
  parameter \<open>now\<close>, in milliseconds since the epoch, the same instant for every
  comparison within one call; the cleaning utility \<open>strings.cleanUnicode\<close> is the
  parameter \<open>cleanUnicode\<close>.
\<close>

subsection \<open>JavaScript values\<close>

text \<open>A JavaScript number that holds an integer, or \<open>NaN\<close> (\<open>None\<close>).\<close>

type_synonym jsnum = "int option"

definition isDigitChar :: "char \<Rightarrow> bool" where
  "isDigitChar c = (c \<in> set ''0123456789'')"

definition digitValue :: "char \<Rightarrow> int" where
  "digitValue c = int (of_char c) - 48"

definition digitsValue :: "string \<Rightarrow> int" where
  "digitsValue s = foldl (\<lambda>acc c. 10 * acc + digitValue c) 0 s"

text \<open>
  \<open>parseInt(s, 10)\<close> on the strings this module passes to it: the decimal value of the
  leading run of ASCII digits, \<open>NaN\<close> when there is none.  (No caller passes a sign or
  leading white space: \<open>validate\<close> tests \<open>isdigits\<close> first.  The values compared
  exactly have at most ten digits, below \<open>2^53\<close>; the test \<open>parseInt(number) <= 0\<close> of a
  longer digit string depends only on whether the value is zero, which rounding to a
  double keeps.)
\<close>

definition parseInt :: "string \<Rightarrow> jsnum" where
  "parseInt s =
     (let ds = takeWhile isDigitChar s
      in if ds = [] then None else Some (digitsValue ds))"

definition digitChar :: "nat \<Rightarrow> char" where
  "digitChar n = ''0123456789'' ! n"

fun showDigits :: "nat \<Rightarrow> string" where
  "showDigits n =
     (if n < 10 then [digitChar n] else showDigits (n div 10) @ [digitChar (n mod 10)])"

declare showDigits.simps [simp del]

text \<open>A number inside a template literal, \<open>`${n}`\<close>.\<close>

definition numToString :: "jsnum \<Rightarrow> string" where
  "numToString n =
     (case n of
        None \<Rightarrow> ''NaN''
      | Some i \<Rightarrow> if i < 0 then CHR ''-'' # showDigits (nat (- i)) else showDigits (nat i))"

text \<open>The argument of \<open>isInPast\<close> is \<open>string | number\<close>.\<close>

datatype strOrNum = Str string | Num jsnum

fun toTemplate :: "strOrNum \<Rightarrow> string" where
  "toTemplate (Str s) = s"
| "toTemplate (Num n) = numToString n"

text \<open>\<open>a < b\<close> and \<open>a <= b\<close> on numbers: false when an operand is \<open>NaN\<close>.\<close>

definition jsLess :: "jsnum \<Rightarrow> int \<Rightarrow> bool" where
  "jsLess a b = (case a of None \<Rightarrow> False | Some x \<Rightarrow> x < b)"

definition jsLessEq :: "jsnum \<Rightarrow> int \<Rightarrow> bool" where
  "jsLessEq a b = (case a of None \<Rightarrow> False | Some x \<Rightarrow> x \<le> b)"

subsection \<open>Dates\<close>

definition isLeapYear :: "int \<Rightarrow> bool" where
  "isLeapYear y = (if y mod 4 = 0 then (if y mod 100 = 0 then y mod 400 = 0 else True) else False)"

definition daysInMonth :: "int \<Rightarrow> int \<Rightarrow> int" where
  "daysInMonth y m =
     (if m = 2 then (if isLeapYear y then 29 else 28)
      else if m = 4 \<or> m = 6 \<or> m = 9 \<or> m = 11 then 30
      else 31)"

definition isCalendarDate :: "int \<Rightarrow> int \<Rightarrow> int \<Rightarrow> bool" where
  "isCalendarDate y m d = (1 \<le> m \<and> m \<le> 12 \<and> 1 \<le> d \<and> d \<le> daysInMonth y m)"

text \<open>Days from 1970-01-01 to the day \<open>d\<close> of month \<open>m\<close> of year \<open>y\<close> (proleptic Gregorian).\<close>

definition daysFromCivil :: "int \<Rightarrow> int \<Rightarrow> int \<Rightarrow> int" where
  "daysFromCivil y m d =
     (let y' = (if m \<le> 2 then y - 1 else y);
          era = y' div 400;
          yoe = y' - era * 400;
          doy = (153 * (if 2 < m then m - 3 else m + 9) + 2) div 5 + d - 1;
          doe = yoe * 365 + yoe div 4 - yoe div 100 + doy
      in era * 146097 + doe - 719468)"

definition MS_PER_DAY :: int where
  "MS_PER_DAY = 86400000"

text \<open>The time value (milliseconds since the epoch) of midnight UTC of a date.\<close>

definition utcMidnight :: "int \<Rightarrow> int \<Rightarrow> int \<Rightarrow> int" where
  "utcMidnight y m d = daysFromCivil y m d * MS_PER_DAY"

text \<open>
  The time value of \<open>new Date(s)\<close> for the two shapes of string this module builds: a
  four-digit year \<open>YYYY\<close> and a date \<open>YYYY-MM-DD\<close>.  Both are date-only forms of the
  ECMAScript date-time format, read as midnight UTC.  \<open>None\<close> is the invalid date, whose
  time value is \<open>NaN\<close>.  A string \<open>YYYY-MM-DD\<close> that is no calendar date (such as
  1985-02-30) is the invalid date here; an engine may roll the day over into the next
  month instead.  No such string reaches \<open>new Date\<close>: \<open>getValidPastDates\<close> keeps only
  the years that \<open>isValidDateCompactYYYYMMDD\<close> accepts before it builds the date.
\<close>

definition dateParse :: "string \<Rightarrow> int option" where
  "dateParse s =
     (if length s = 4 \<and> list_all isDigitChar s
      then Some (utcMidnight (digitsValue s) 1 1)
      else if length s = 10 \<and> s ! 4 = CHR ''-'' \<and> s ! 7 = CHR ''-''
              \<and> list_all isDigitChar (take 4 s)
              \<and> list_all isDigitChar (take 2 (drop 5 s))
              \<and> list_all isDigitChar (drop 8 s)
              \<and> isCalendarDate (digitsValue (take 4 s)) (digitsValue (take 2 (drop 5 s)))
                    (digitsValue (drop 8 s))
      then Some (utcMidnight (digitsValue (take 4 s)) (digitsValue (take 2 (drop 5 s)))
                   (digitsValue (drop 8 s)))
      else None)"

subsection \<open>Collaborators outside the file\<close>

text \<open>
  Modelled from the spec: \<open>strings.isdigits\<close> (util, not among the sources): the value
  is "all-digits", "all chars in [0-9]"; the empty string is not a number.
\<close>

definition isdigits :: "string \<Rightarrow> bool" where
  "isdigits s = (s \<noteq> [] \<and> list_all isDigitChar s)"

text \<open>
  Modelled from the spec: \<open>strings.splitAt\<close> (util, not among the sources): the
  substrings of the value between the given offsets, "extracted by fixed offsets":
  \<open>splitAt(v, 2, 4, 6)\<close> is \<open>[v[0:2], v[2:4], v[4:6], v[6:]]\<close>.
\<close>

fun splitFrom :: "nat \<Rightarrow> string \<Rightarrow> nat list \<Rightarrow> string list" where
  "splitFrom start v [] = [drop start v]"
| "splitFrom start v (p # ps) = take (p - start) (drop start v) # splitFrom p v ps"

definition splitAt :: "string \<Rightarrow> nat list \<Rightarrow> string list" where
  "splitAt v points = splitFrom 0 v points"

text \<open>
  Modelled from the spec: \<open>isValidDateCompactYYYYMMDD\<close> (util, not among the sources):
  the eight characters \<open>YYYYMMDD\<close> form "a calendar-valid date (respecting month lengths
  and leap years)".
\<close>

definition isValidDateCompactYYYYMMDD :: "string \<Rightarrow> bool" where
  "isValidDateCompactYYYYMMDD s =
     (let parts = splitAt s [4, 6]
      in case (parseInt (parts ! 0), parseInt (parts ! 1), parseInt (parts ! 2)) of
           (Some y, Some m, Some d) \<Rightarrow> isCalendarDate y m d
         | _ \<Rightarrow> False)"

subsection \<open>The validator\<close>

datatype ValidationError = InvalidFormat | InvalidLength | InvalidChecksum

datatype ValidateReturn =
    isValid: Valid (compactOf: string) (isIndividual: bool) (isCompany: bool)
  | Invalid (errorOf: ValidationError)

text \<open>
  \<open>strings.cleanUnicode(input, deletechars)\<close> returns a pair \<open>[value, err]\<close>; \<open>err\<close> is
  \<open>null\<close> (\<open>None\<close>) when the input cleans.
\<close>

type_synonym 'e cleaner = "string \<Rightarrow> string \<Rightarrow> string \<times> 'e option"

definition clean :: "'e cleaner \<Rightarrow> string \<Rightarrow> string \<times> 'e option" where
  "clean cleanUnicode input = cleanUnicode input '' -.''"

text \<open>A thrown error is \<open>Inl\<close>.\<close>

definition compact :: "'e cleaner \<Rightarrow> string \<Rightarrow> 'e + string" where
  "compact cleanUnicode input =
     (case clean cleanUnicode input of
        (v, Some err) \<Rightarrow> Inl err
      | (v, None) \<Rightarrow> Inr v)"

definition format :: "'e cleaner \<Rightarrow> string \<Rightarrow> string" where
  "format cleanUnicode input = (case clean cleanUnicode input of (v, _) \<Rightarrow> v)"

definition toDateArray :: "string \<Rightarrow> string list" where
  "toDateArray number = take 3 (splitAt number [2, 4, 6])"

definition getChecksum :: "string \<Rightarrow> jsnum" where
  "getChecksum number = parseInt (splitAt number [9] ! 1)"

definition getBaseNumber :: "string \<Rightarrow> string" where
  "getBaseNumber number = splitAt number [9] ! 0"

definition getFirstSix :: "string \<Rightarrow> string" where
  "getFirstSix number = splitAt number [6] ! 0"

definition getFullYears :: "string \<Rightarrow> jsnum list" where
  "getFullYears yy = [parseInt (''19'' @ yy), parseInt (''20'' @ yy)]"

definition ONE_DAY :: int where
  "ONE_DAY = 1000 * 60 * 60 * 24"

definition getApproximatelyNow :: "int \<Rightarrow> int" where
  "getApproximatelyNow now = now + ONE_DAY"

definition isInPast :: "int \<Rightarrow> strOrNum \<Rightarrow> bool" where
  "isInPast now date =
     (case dateParse (toTemplate date) of
        None \<Rightarrow> False
      | Some t \<Rightarrow> t \<le> getApproximatelyNow now)"

definition toChecksumBasis :: "jsnum \<Rightarrow> string \<Rightarrow> jsnum" where
  "toChecksumBasis year baseNumber =
     parseInt (if jsLess year 2000 then baseNumber else ''2'' @ baseNumber)"

definition getValidPastDates :: "int \<Rightarrow> string \<Rightarrow> string list" where
  "getValidPastDates now yymmdd =
     (let parts = toDateArray yymmdd;
          yy = parts ! 0; mm = parts ! 1; dd = parts ! 2
      in filter (\<lambda>date. isInPast now (Str date))
           (map (\<lambda>yyyy. numToString yyyy @ ''-'' @ mm @ ''-'' @ dd)
              (filter (\<lambda>yyyy. isValidDateCompactYYYYMMDD (numToString yyyy @ mm @ dd))
                 (getFullYears yy))))"

text \<open>\<open>parseInt(date.split('-')[0], 10)\<close>: the part before the first hyphen.\<close>

definition extractYearFromDate :: "string \<Rightarrow> jsnum" where
  "extractYearFromDate date = parseInt (takeWhile (\<lambda>c. c \<noteq> CHR ''-'') date)"

definition getChecksumBasesForStandardDob :: "int \<Rightarrow> string \<Rightarrow> string \<Rightarrow> jsnum list" where
  "getChecksumBasesForStandardDob now dob baseNumber =
     (let validPastDates = getValidPastDates now dob;
          validPastYears = map extractYearFromDate validPastDates
      in map (\<lambda>year. toChecksumBasis year baseNumber) validPastYears)"

definition getChecksumBasesUnknownDob :: "int \<Rightarrow> string \<Rightarrow> string \<Rightarrow> jsnum list" where
  "getChecksumBasesUnknownDob now dob baseNumber =
     (let yy = toDateArray dob ! 0
      in map (\<lambda>year. toChecksumBasis year baseNumber)
           (filter (\<lambda>year. isInPast now (Num year)) (getFullYears yy)))"

definition isUnknownDob :: "string \<Rightarrow> bool" where
  "isUnknownDob dob =
     (let parts = toDateArray dob;
          yy = parts ! 0; mm = parts ! 1; dd = parts ! 2
      in isdigits yy \<and> mm = ''00'' \<and> isdigits dd)"

definition isValidDob :: "int \<Rightarrow> string \<Rightarrow> bool" where
  "isValidDob now dob = (length (getValidPastDates now dob) \<noteq> 0)"

definition isValidFirstSix :: "int \<Rightarrow> string \<Rightarrow> bool" where
  "isValidFirstSix now firstSix = (isUnknownDob firstSix \<or> isValidDob now firstSix)"

definition getChecksumBases :: "int \<Rightarrow> string \<Rightarrow> jsnum list" where
  "getChecksumBases now number =
     (let firstSix = getFirstSix number;
          baseNumber = getBaseNumber number
      in if isUnknownDob firstSix then getChecksumBasesUnknownDob now firstSix baseNumber
         else getChecksumBasesForStandardDob now firstSix baseNumber)"

text \<open>
  \<open>csb % 97 + checksum === 97\<close>: false when an operand is \<open>NaN\<close>.  The bases are
  values of \<open>parseInt\<close> on unsigned strings, so never negative, where \<open>%\<close> is \<open>mod\<close>.
\<close>

definition checksumMatches :: "jsnum \<Rightarrow> jsnum \<Rightarrow> bool" where
  "checksumMatches csb checksum =
     (case (csb, checksum) of
        (Some b, Some c) \<Rightarrow> b mod 97 + c = 97
      | _ \<Rightarrow> False)"

definition validChecksum :: "int \<Rightarrow> string \<Rightarrow> bool" where
  "validChecksum now number =
     (let checksumBases = getChecksumBases now number;
          checksum = getChecksum number
      in list_ex (\<lambda>csb. checksumMatches csb checksum) checksumBases)"

definition validStructure :: "int \<Rightarrow> string \<Rightarrow> bool" where
  "validStructure now number = isValidFirstSix now (getFirstSix number)"

definition validate :: "'e cleaner \<Rightarrow> int \<Rightarrow> string \<Rightarrow> 'e + ValidateReturn" where
  "validate cleanUnicode now input =
     (case compact cleanUnicode input of
        Inl err \<Rightarrow> Inl err
      | Inr number \<Rightarrow>
          Inr (if \<not> isdigits number \<or> jsLessEq (parseInt number) 0 then Invalid InvalidFormat
               else if length number \<noteq> 11 then Invalid InvalidLength
               else if \<not> validStructure now number then Invalid InvalidFormat
               else if \<not> validChecksum now number then Invalid InvalidChecksum
               else Valid number True False))"

text \<open>
  Modelled from the spec: the cleaning utility on an input it does not reject: it
  "removes characters in the set" it is given (space, hyphen and period for this module)
  and reports no error.  It instantiates the parameter \<open>cleanUnicode\<close> where a concrete
  run of the validator is evaluated; no general statement depends on it.
\<close>

definition deleteChars :: "'e cleaner" where
  "deleteChars v deletechars = (filter (\<lambda>c. c \<notin> set deletechars) v, None)"

section \<open>Digit strings and dates\<close>

text \<open>
  Facts about the strings the validator builds from a digit string: the two century
  expansions of a two-digit year, their printed forms, and the dates read back from them.
\<close>

lemma digitValue_range: "isDigitChar c \<Longrightarrow> 0 \<le> digitValue c \<and> digitValue c \<le> 9"
  by (auto simp: isDigitChar_def digitValue_def)

lemma digitChar_digitValue: "isDigitChar c \<Longrightarrow> digitChar (nat (digitValue c)) = c"
  by (auto simp: isDigitChar_def digitValue_def digitChar_def)

lemma takeWhile_digits: "list_all isDigitChar s \<Longrightarrow> takeWhile isDigitChar s = s"
  by (induction s) auto

lemma parseInt_digits: "isdigits s \<Longrightarrow> parseInt s = Some (digitsValue s)"
  by (simp add: isdigits_def parseInt_def takeWhile_digits)

lemma digitsValue_snoc: "digitsValue (s @ [c]) = 10 * digitsValue s + digitValue c"
  by (simp add: digitsValue_def)

lemma digitsValue_Cons: "digitsValue (c # s) = digitValue c * 10 ^ length s + digitsValue s"
proof (induction s rule: rev_induct)
  case Nil
  then show ?case by (simp add: digitsValue_def)
next
  case (snoc d s)
  have "digitsValue (c # s @ [d]) = 10 * digitsValue (c # s) + digitValue d"
    using digitsValue_snoc [of "c # s" d] by simp
  with snoc show ?case by (simp add: digitsValue_snoc algebra_simps)
qed

lemma showDigits_step:
  assumes "0 < n" "d < 10"
  shows "showDigits (10 * n + d) = showDigits n @ [digitChar d]"
proof -
  have "\<not> 10 * n + d < 10" using assms by simp
  moreover have "(10 * n + d) div 10 = n" "(10 * n + d) mod 10 = d" using assms by simp_all
  ultimately show ?thesis by (subst showDigits.simps) simp
qed

lemma showDigits_19: "showDigits 19 = ''19''" and showDigits_20: "showDigits 20 = ''20''"
  by (simp_all add: showDigits.simps digitChar_def)

lemma numToString_year:
  assumes "isDigitChar a" "isDigitChar b"
  shows "numToString (Some (1900 + digitsValue [a, b])) = [CHR ''1'', CHR ''9'', a, b]"
    and "numToString (Some (2000 + digitsValue [a, b])) = [CHR ''2'', CHR ''0'', a, b]"
proof -
  define x where "x = nat (digitValue a)"
  define y where "y = nat (digitValue b)"
  have xy: "x < 10" "y < 10" "digitValue a = int x" "digitValue b = int y"
    using digitValue_range [OF assms(1)] digitValue_range [OF assms(2)]
    by (auto simp: x_def y_def)
  have dv: "digitsValue [a, b] = int (10 * x + y)"
    by (simp add: digitsValue_def xy)
  have n19: "nat (1900 + digitsValue [a, b]) = 10 * (10 * 19 + x) + y"
    and n20: "nat (2000 + digitsValue [a, b]) = 10 * (10 * 20 + x) + y"
    by (simp_all add: dv)
  have cx: "digitChar x = a" and cy: "digitChar y = b"
    using digitChar_digitValue assms by (simp_all add: x_def y_def)
  have s19: "showDigits (10 * (10 * 19 + x) + y) = [CHR ''1'', CHR ''9'', a, b]"
  proof -
    have "showDigits (10 * (10 * 19 + x) + y) = showDigits (10 * 19 + x) @ [digitChar y]"
      by (rule showDigits_step) (use xy in simp_all)
    moreover have "showDigits (10 * 19 + x) = showDigits 19 @ [digitChar x]"
      by (rule showDigits_step) (use xy in simp_all)
    ultimately show ?thesis by (simp add: showDigits_19 cx cy)
  qed
  have s20: "showDigits (10 * (10 * 20 + x) + y) = [CHR ''2'', CHR ''0'', a, b]"
  proof -
    have "showDigits (10 * (10 * 20 + x) + y) = showDigits (10 * 20 + x) @ [digitChar y]"
      by (rule showDigits_step) (use xy in simp_all)
    moreover have "showDigits (10 * 20 + x) = showDigits 20 @ [digitChar x]"
      by (rule showDigits_step) (use xy in simp_all)
    ultimately show ?thesis by (simp add: showDigits_20 cx cy)
  qed
  have nn: "\<not> 1900 + digitsValue [a, b] < 0" "\<not> 2000 + digitsValue [a, b] < 0"
    by (simp_all add: dv)
  show "numToString (Some (1900 + digitsValue [a, b])) = [CHR ''1'', CHR ''9'', a, b]"
    unfolding numToString_def option.case if_not_P [OF nn(1)] n19 by (rule s19)
  show "numToString (Some (2000 + digitsValue [a, b])) = [CHR ''2'', CHR ''0'', a, b]"
    unfolding numToString_def option.case if_not_P [OF nn(2)] n20 by (rule s20)
qed


lemma isDigitChar_lits [simp]:
  "isDigitChar CHR ''0''" "isDigitChar CHR ''1''" "isDigitChar CHR ''2''" "isDigitChar CHR ''9''"
  "\<not> isDigitChar CHR ''-''"
  by (simp_all add: isDigitChar_def)

lemma digitsValue_year:
  "digitsValue [CHR ''1'', CHR ''9'', a, b] = 1900 + digitsValue [a, b]"
  "digitsValue [CHR ''2'', CHR ''0'', a, b] = 2000 + digitsValue [a, b]"
  by (simp_all add: digitsValue_def digitValue_def)

lemma getFullYears_digits:
  assumes "isDigitChar a" "isDigitChar b"
  shows "getFullYears [a, b] = [Some (1900 + digitsValue [a, b]), Some (2000 + digitsValue [a, b])]"
  using assms by (simp add: getFullYears_def parseInt_digits isdigits_def digitsValue_year)

lemma isValidDateCompactYYYYMMDD_digits:
  assumes "isDigitChar y1" "isDigitChar y2" "isDigitChar a" "isDigitChar b"
    "isDigitChar c" "isDigitChar d" "isDigitChar e" "isDigitChar f"
  shows "isValidDateCompactYYYYMMDD [y1, y2, a, b, c, d, e, f] =
         isCalendarDate (digitsValue [y1, y2, a, b]) (digitsValue [c, d]) (digitsValue [e, f])"
  using assms by (simp add: isValidDateCompactYYYYMMDD_def splitAt_def parseInt_digits isdigits_def)

lemma dateParse_date:
  assumes "isDigitChar y1" "isDigitChar y2" "isDigitChar a" "isDigitChar b"
    "isDigitChar c" "isDigitChar d" "isDigitChar e" "isDigitChar f"
  shows "dateParse [y1, y2, a, b, CHR ''-'', c, d, CHR ''-'', e, f] =
         (if isCalendarDate (digitsValue [y1, y2, a, b]) (digitsValue [c, d]) (digitsValue [e, f])
          then Some (daysFromCivil (digitsValue [y1, y2, a, b]) (digitsValue [c, d])
                       (digitsValue [e, f]) * 86400000)
          else None)"
  using assms by (simp add: dateParse_def utcMidnight_def MS_PER_DAY_def)

lemma dateParse_year:
  assumes "isDigitChar y1" "isDigitChar y2" "isDigitChar a" "isDigitChar b"
  shows "dateParse [y1, y2, a, b] = Some (daysFromCivil (digitsValue [y1, y2, a, b]) 1 1 * 86400000)"
  using assms by (simp add: dateParse_def utcMidnight_def MS_PER_DAY_def)

lemma extractYearFromDate_date:
  assumes "isDigitChar y1" "isDigitChar y2" "isDigitChar a" "isDigitChar b"
  shows "extractYearFromDate ([y1, y2, a, b] @ CHR ''-'' # rest) = Some (digitsValue [y1, y2, a, b])"
proof -
  have "CHR ''-'' \<noteq> y1" "CHR ''-'' \<noteq> y2" "CHR ''-'' \<noteq> a" "CHR ''-'' \<noteq> b"
    using assms by (auto simp: isDigitChar_def)
  then have "takeWhile (\<lambda>c. c \<noteq> CHR ''-'') ([y1, y2, a, b] @ CHR ''-'' # rest) = [y1, y2, a, b]"
    by auto
  then show ?thesis
    using assms by (simp add: extractYearFromDate_def parseInt_digits isdigits_def)
qed

lemma toDateArray_six: "toDateArray [a, b, c, d, e, f] = [[a, b], [c, d], [e, f]]"
  by (simp add: toDateArray_def splitAt_def)

lemma isInPast_date:
  assumes "isDigitChar y1" "isDigitChar y2" "isDigitChar a" "isDigitChar b"
    "isDigitChar c" "isDigitChar d" "isDigitChar e" "isDigitChar f"
  shows "isInPast now (Str [y1, y2, a, b, CHR ''-'', c, d, CHR ''-'', e, f]) =
         (isCalendarDate (digitsValue [y1, y2, a, b]) (digitsValue [c, d]) (digitsValue [e, f]) \<and>
          daysFromCivil (digitsValue [y1, y2, a, b]) (digitsValue [c, d]) (digitsValue [e, f])
            * 86400000 \<le> now + 86400000)"
  by (simp add: isInPast_def dateParse_date [OF assms] getApproximatelyNow_def ONE_DAY_def)

lemma getValidPastDates_digits:
  assumes "isDigitChar a" "isDigitChar b" "isDigitChar c" "isDigitChar d" "isDigitChar e" "isDigitChar f"
  shows "getValidPastDates now [a, b, c, d, e, f] =
         map (\<lambda>y. numToString (Some y) @ ''-'' @ [c, d] @ ''-'' @ [e, f])
           (filter (\<lambda>y. isCalendarDate y (digitsValue [c, d]) (digitsValue [e, f]) \<and>
                        daysFromCivil y (digitsValue [c, d]) (digitsValue [e, f]) * 86400000
                          \<le> now + 86400000)
              [1900 + digitsValue [a, b], 2000 + digitsValue [a, b]])"
proof -
  note ny = numToString_year [OF assms(1,2)]
  have v19: "isValidDateCompactYYYYMMDD (numToString (Some (1900 + digitsValue [a, b])) @ [c, d] @ [e, f])
      = isCalendarDate (1900 + digitsValue [a, b]) (digitsValue [c, d]) (digitsValue [e, f])"
    using isValidDateCompactYYYYMMDD_digits [of "CHR ''1''" "CHR ''9''" a b c d e f] assms
    by (simp add: ny digitsValue_year)
  have v20: "isValidDateCompactYYYYMMDD (numToString (Some (2000 + digitsValue [a, b])) @ [c, d] @ [e, f])
      = isCalendarDate (2000 + digitsValue [a, b]) (digitsValue [c, d]) (digitsValue [e, f])"
    using isValidDateCompactYYYYMMDD_digits [of "CHR ''2''" "CHR ''0''" a b c d e f] assms
    by (simp add: ny digitsValue_year)
  have p19: "isInPast now (Str (numToString (Some (1900 + digitsValue [a, b])) @ ''-'' @ [c, d] @ ''-'' @ [e, f]))
      = (isCalendarDate (1900 + digitsValue [a, b]) (digitsValue [c, d]) (digitsValue [e, f]) \<and>
         daysFromCivil (1900 + digitsValue [a, b]) (digitsValue [c, d]) (digitsValue [e, f]) * 86400000
           \<le> now + 86400000)"
    using isInPast_date [of "CHR ''1''" "CHR ''9''" a b c d e f now] assms
    by (simp add: ny digitsValue_year)
  have p20: "isInPast now (Str (numToString (Some (2000 + digitsValue [a, b])) @ ''-'' @ [c, d] @ ''-'' @ [e, f]))
      = (isCalendarDate (2000 + digitsValue [a, b]) (digitsValue [c, d]) (digitsValue [e, f]) \<and>
         daysFromCivil (2000 + digitsValue [a, b]) (digitsValue [c, d]) (digitsValue [e, f]) * 86400000
           \<le> now + 86400000)"
    using isInPast_date [of "CHR ''2''" "CHR ''0''" a b c d e f now] assms
    by (simp add: ny digitsValue_year)
  show ?thesis
    using v19 v20 p19 p20
    by (simp add: getValidPastDates_def toDateArray_six getFullYears_digits [OF assms(1,2)] Let_def)
qed


lemma eleven_chars:
  assumes "length s = 11"
  obtains c0 c1 c2 c3 c4 c5 c6 c7 c8 c9 c10 where "s = [c0, c1, c2, c3, c4, c5, c6, c7, c8, c9, c10]"
proof -
  from assms have "\<exists>c0 c1 c2 c3 c4 c5 c6 c7 c8 c9 c10. s = [c0, c1, c2, c3, c4, c5, c6, c7, c8, c9, c10]"
    by (simp add: eval_nat_numeral length_Suc_conv) blast
  with that show thesis by blast
qed

lemma toChecksumBasis_digits:
  assumes "isdigits baseNumber"
  shows "toChecksumBasis (Some year) baseNumber =
         Some (if year < 2000 then digitsValue baseNumber
               else 2 * 10 ^ length baseNumber + digitsValue baseNumber)"
proof -
  have "isdigits (''2'' @ baseNumber)"
    using assms by (simp add: isdigits_def)
  then have "parseInt (''2'' @ baseNumber) = Some (digitsValue (CHR ''2'' # baseNumber))"
    using parseInt_digits by fastforce
  then show ?thesis
    using assms by (simp add: toChecksumBasis_def jsLess_def parseInt_digits digitsValue_Cons digitValue_def)
qed

lemma isInPast_year:
  assumes "isDigitChar a" "isDigitChar b"
  shows "isInPast now (Num (Some (1900 + digitsValue [a, b]))) =
           (daysFromCivil (1900 + digitsValue [a, b]) 1 1 * 86400000 \<le> now + 86400000)"
    and "isInPast now (Num (Some (2000 + digitsValue [a, b]))) =
           (daysFromCivil (2000 + digitsValue [a, b]) 1 1 * 86400000 \<le> now + 86400000)"
  using assms dateParse_year [of "CHR ''1''" "CHR ''9''" a b] dateParse_year [of "CHR ''2''" "CHR ''0''" a b]
  by (simp_all add: isInPast_def numToString_year digitsValue_year getApproximatelyNow_def ONE_DAY_def)

lemma getChecksumBasesUnknownDob_digits:
  assumes "isDigitChar a" "isDigitChar b"
  shows "getChecksumBasesUnknownDob now [a, b, c, d, e, f] baseNumber =
         map (\<lambda>y. toChecksumBasis (Some y) baseNumber)
           (filter (\<lambda>y. daysFromCivil y 1 1 * 86400000 \<le> now + 86400000)
              [1900 + digitsValue [a, b], 2000 + digitsValue [a, b]])"
  by (simp add: getChecksumBasesUnknownDob_def toDateArray_six getFullYears_digits [OF assms]
      isInPast_year [OF assms] Let_def)

lemma extractYearFromDate_numToString:
  assumes "isDigitChar a" "isDigitChar b"
  shows "extractYearFromDate (numToString (Some (1900 + digitsValue [a, b])) @ CHR ''-'' # rest)
           = Some (1900 + digitsValue [a, b])"
    and "extractYearFromDate (numToString (Some (2000 + digitsValue [a, b])) @ CHR ''-'' # rest)
           = Some (2000 + digitsValue [a, b])"
  using assms extractYearFromDate_date [of "CHR ''1''" "CHR ''9''" a b rest]
    extractYearFromDate_date [of "CHR ''2''" "CHR ''0''" a b rest]
  by (simp_all add: numToString_year digitsValue_year)

lemma getChecksumBasesForStandardDob_digits:
  assumes "isDigitChar a" "isDigitChar b" "isDigitChar c" "isDigitChar d" "isDigitChar e" "isDigitChar f"
  shows "getChecksumBasesForStandardDob now [a, b, c, d, e, f] baseNumber =
         map (\<lambda>y. toChecksumBasis (Some y) baseNumber)
           (filter (\<lambda>y. isCalendarDate y (digitsValue [c, d]) (digitsValue [e, f]) \<and>
                        daysFromCivil y (digitsValue [c, d]) (digitsValue [e, f]) * 86400000
                          \<le> now + 86400000)
              [1900 + digitsValue [a, b], 2000 + digitsValue [a, b]])"
  using extractYearFromDate_numToString [OF assms(1,2), of "[c, d] @ ''-'' @ [e, f]"]
  by (simp add: getChecksumBasesForStandardDob_def getValidPastDates_digits [OF assms] Let_def)

lemma isUnknownDob_digits:
  assumes "isDigitChar a" "isDigitChar b" "isDigitChar e" "isDigitChar f"
  shows "isUnknownDob [a, b, c, d, e, f] = ([c, d] = ''00'')"
  using assms by (simp add: isUnknownDob_def toDateArray_six isdigits_def Let_def)

section \<open>The parts of an eleven-digit number\<close>

lemma getFirstSix_take: "getFirstSix number = take 6 number"
  by (simp add: getFirstSix_def splitAt_def)

lemma getBaseNumber_take: "getBaseNumber number = take 9 number"
  by (simp add: getBaseNumber_def splitAt_def)

lemma getChecksum_drop: "getChecksum number = parseInt (drop 9 number)"
  by (simp add: getChecksum_def splitAt_def)

lemma if_map_filter:
  "(if b then map f (filter P xs) else map f (filter Q xs)) =
   map f (filter (\<lambda>y. if b then P y else Q y) xs)"
  by simp

lemma getChecksumBases_number:
  assumes "isdigits number" "length number = 11"
  shows "getChecksumBases now number =
         map (\<lambda>y. toChecksumBasis (Some y) (take 9 number))
           (filter (\<lambda>y. if take 2 (drop 2 number) = ''00''
                        then daysFromCivil y 1 1 * 86400000 \<le> now + 86400000
                        else isCalendarDate y (digitsValue (take 2 (drop 2 number)))
                               (digitsValue (take 2 (drop 4 number))) \<and>
                             daysFromCivil y (digitsValue (take 2 (drop 2 number)))
                               (digitsValue (take 2 (drop 4 number))) * 86400000
                               \<le> now + 86400000)
              [1900 + digitsValue (take 2 number), 2000 + digitsValue (take 2 number)])"
proof -
  from assms(2) obtain c0 c1 c2 c3 c4 c5 c6 c7 c8 c9 c10
    where n: "number = [c0, c1, c2, c3, c4, c5, c6, c7, c8, c9, c10]"
    by (rule eleven_chars)
  from assms(1) have d: "isDigitChar c0" "isDigitChar c1" "isDigitChar c2" "isDigitChar c3"
      "isDigitChar c4" "isDigitChar c5"
    by (simp_all add: n isdigits_def)
  have parts: "take 2 number = [c0, c1]" "take 2 (drop 2 number) = [c2, c3]"
    "take 2 (drop 4 number) = [c4, c5]" "take 6 number = [c0, c1, c2, c3, c4, c5]"
    by (simp_all add: n)
  show ?thesis
    unfolding getChecksumBases_def Let_def getFirstSix_take getBaseNumber_take parts
      isUnknownDob_digits [OF d(1,2,5,6)] getChecksumBasesUnknownDob_digits [OF d(1,2)]
      getChecksumBasesForStandardDob_digits [OF d]
    by (rule if_map_filter)
qed

lemma validStructure_number:
  assumes "isdigits number" "length number = 11"
  shows "validStructure now number =
         (isUnknownDob (getFirstSix number) \<or>
          filter (\<lambda>y. isCalendarDate y (digitsValue (take 2 (drop 2 number)))
                               (digitsValue (take 2 (drop 4 number))) \<and>
                             daysFromCivil y (digitsValue (take 2 (drop 2 number)))
                               (digitsValue (take 2 (drop 4 number))) * 86400000
                               \<le> now + 86400000)
              [1900 + digitsValue (take 2 number), 2000 + digitsValue (take 2 number)] \<noteq> [])"
proof -
  from assms(2) obtain c0 c1 c2 c3 c4 c5 c6 c7 c8 c9 c10
    where n: "number = [c0, c1, c2, c3, c4, c5, c6, c7, c8, c9, c10]"
    by (rule eleven_chars)
  from assms(1) have d: "isDigitChar c0" "isDigitChar c1" "isDigitChar c2" "isDigitChar c3"
      "isDigitChar c4" "isDigitChar c5"
    by (simp_all add: n isdigits_def)
  have "getValidPastDates now [c0, c1, c2, c3, c4, c5] =
         map (\<lambda>y. numToString (Some y) @ ''-'' @ [c2, c3] @ ''-'' @ [c4, c5])
           (filter (\<lambda>y. isCalendarDate y (digitsValue [c2, c3]) (digitsValue [c4, c5]) \<and>
                        daysFromCivil y (digitsValue [c2, c3]) (digitsValue [c4, c5]) * 86400000
                          \<le> now + 86400000)
              [1900 + digitsValue [c0, c1], 2000 + digitsValue [c0, c1]])"
    by (rule getValidPastDates_digits [OF d])
  then show ?thesis
    by (simp add: n validStructure_def isValidFirstSix_def isValidDob_def getFirstSix_take)
qed

lemma isUnknownDob_number:
  assumes "isdigits number" "length number = 11"
  shows "isUnknownDob (getFirstSix number) = (take 2 (drop 2 number) = ''00'')"
proof -
  from assms(2) obtain c0 c1 c2 c3 c4 c5 c6 c7 c8 c9 c10
    where n: "number = [c0, c1, c2, c3, c4, c5, c6, c7, c8, c9, c10]"
    by (rule eleven_chars)
  from assms(1) have d: "isDigitChar c0" "isDigitChar c1" "isDigitChar c4" "isDigitChar c5"
    by (simp_all add: n isdigits_def)
  show ?thesis
    using isUnknownDob_digits [OF d, of c2 c3] by (simp add: n getFirstSix_take)
qed

lemma isdigits_drop:
  assumes "isdigits s" "n < length s"
  shows "isdigits (drop n s)"
  using assms by (auto simp: isdigits_def list_all_iff dest: in_set_dropD)

lemma validChecksum_number:
  assumes "isdigits number" "length number = 11"
  shows "validChecksum now number =
         (\<exists>b. Some b \<in> set (getChecksumBases now number) \<and>
              b mod 97 + digitsValue (drop 9 number) = 97)"
proof -
  have "isdigits (drop 9 number)"
    using assms by (simp add: isdigits_drop)
  then have c: "getChecksum number = Some (digitsValue (drop 9 number))"
    by (simp add: getChecksum_drop parseInt_digits)
  show ?thesis
    unfolding validChecksum_def Let_def c list_ex_iff checksumMatches_def
    by (auto split: option.splits)
qed

lemma cutoff_unfold:
  "(daysFromCivil y m d * 86400000 \<le> now + 86400000) = (utcMidnight y m d \<le> getApproximatelyNow now)"
  by (simp add: utcMidnight_def MS_PER_DAY_def getApproximatelyNow_def ONE_DAY_def)

lemma toDateArray_number:
  assumes "length number = 11"
  shows "toDateArray (getFirstSix number) =
         [take 2 number, take 2 (drop 2 number), take 2 (drop 4 number)]"
proof -
  from assms obtain c0 c1 c2 c3 c4 c5 c6 c7 c8 c9 c10
    where n: "number = [c0, c1, c2, c3, c4, c5, c6, c7, c8, c9, c10]"
    by (rule eleven_chars)
  show ?thesis by (simp add: n getFirstSix_take toDateArray_six)
qed

lemma getFullYears_number:
  assumes "isdigits number" "length number = 11"
  shows "getFullYears (take 2 number) =
         [Some (1900 + digitsValue (take 2 number)), Some (2000 + digitsValue (take 2 number))]"
proof -
  from assms(2) obtain c0 c1 c2 c3 c4 c5 c6 c7 c8 c9 c10
    where n: "number = [c0, c1, c2, c3, c4, c5, c6, c7, c8, c9, c10]"
    by (rule eleven_chars)
  from assms(1) have d: "isDigitChar c0" "isDigitChar c1"
    by (simp_all add: n isdigits_def)
  show ?thesis using getFullYears_digits [OF d] by (simp add: n)
qed

lemma getValidPastDates_number:
  assumes "isdigits number" "length number = 11"
  shows "getValidPastDates now (getFirstSix number) =
         map (\<lambda>y. numToString (Some y) @ ''-'' @ take 2 (drop 2 number) @ ''-'' @ take 2 (drop 4 number))
           (filter (\<lambda>y. isCalendarDate y (digitsValue (take 2 (drop 2 number)))
                          (digitsValue (take 2 (drop 4 number))) \<and>
                        utcMidnight y (digitsValue (take 2 (drop 2 number)))
                          (digitsValue (take 2 (drop 4 number))) \<le> getApproximatelyNow now)
              [1900 + digitsValue (take 2 number), 2000 + digitsValue (take 2 number)])"
proof -
  from assms(2) obtain c0 c1 c2 c3 c4 c5 c6 c7 c8 c9 c10
    where n: "number = [c0, c1, c2, c3, c4, c5, c6, c7, c8, c9, c10]"
    by (rule eleven_chars)
  from assms(1) have d: "isDigitChar c0" "isDigitChar c1" "isDigitChar c2" "isDigitChar c3"
      "isDigitChar c4" "isDigitChar c5"
    by (simp_all add: n isdigits_def)
  have parts: "take 2 number = [c0, c1]" "take 2 (drop 2 number) = [c2, c3]"
    "take 2 (drop 4 number) = [c4, c5]" "take 6 number = [c0, c1, c2, c3, c4, c5]"
    by (simp_all add: n)
  show ?thesis
    unfolding getFirstSix_take parts getValidPastDates_digits [OF d] cutoff_unfold
    by (rule refl)
qed

lemma getChecksumBasesUnknownDob_number:
  assumes "isdigits number" "length number = 11"
  shows "getChecksumBasesUnknownDob now (getFirstSix number) baseNumber =
         map (\<lambda>y. toChecksumBasis (Some y) baseNumber)
           (filter (\<lambda>y. utcMidnight y 1 1 \<le> getApproximatelyNow now)
              [1900 + digitsValue (take 2 number), 2000 + digitsValue (take 2 number)])"
proof -
  from assms(2) obtain c0 c1 c2 c3 c4 c5 c6 c7 c8 c9 c10
    where n: "number = [c0, c1, c2, c3, c4, c5, c6, c7, c8, c9, c10]"
    by (rule eleven_chars)
  from assms(1) have d: "isDigitChar c0" "isDigitChar c1"
    by (simp_all add: n isdigits_def)
  have parts: "take 2 number = [c0, c1]" "take 6 number = [c0, c1, c2, c3, c4, c5]"
    by (simp_all add: n)
  show ?thesis
    unfolding getFirstSix_take parts getChecksumBasesUnknownDob_digits [OF d] cutoff_unfold
    by (rule refl)
qed

lemma isValidDateCompactYYYYMMDD_number:
  assumes "isdigits number" "length number = 11"
  shows "isValidDateCompactYYYYMMDD (''19'' @ getFirstSix number) =
           isCalendarDate (1900 + digitsValue (take 2 number))
             (digitsValue (take 2 (drop 2 number))) (digitsValue (take 2 (drop 4 number)))"
    and "isValidDateCompactYYYYMMDD (''20'' @ getFirstSix number) =
           isCalendarDate (2000 + digitsValue (take 2 number))
             (digitsValue (take 2 (drop 2 number))) (digitsValue (take 2 (drop 4 number)))"
proof -
  from assms(2) obtain c0 c1 c2 c3 c4 c5 c6 c7 c8 c9 c10
    where n: "number = [c0, c1, c2, c3, c4, c5, c6, c7, c8, c9, c10]"
    by (rule eleven_chars)
  from assms(1) have d: "isDigitChar c0" "isDigitChar c1" "isDigitChar c2" "isDigitChar c3"
      "isDigitChar c4" "isDigitChar c5"
    by (simp_all add: n isdigits_def)
  show "isValidDateCompactYYYYMMDD (''19'' @ getFirstSix number) =
           isCalendarDate (1900 + digitsValue (take 2 number))
             (digitsValue (take 2 (drop 2 number))) (digitsValue (take 2 (drop 4 number)))"
    using isValidDateCompactYYYYMMDD_digits [of "CHR ''1''" "CHR ''9''" c0 c1 c2 c3 c4 c5] d
    by (simp add: n getFirstSix_take digitsValue_year)
  show "isValidDateCompactYYYYMMDD (''20'' @ getFirstSix number) =
           isCalendarDate (2000 + digitsValue (take 2 number))
             (digitsValue (take 2 (drop 2 number))) (digitsValue (take 2 (drop 4 number)))"
    using isValidDateCompactYYYYMMDD_digits [of "CHR ''2''" "CHR ''0''" c0 c1 c2 c3 c4 c5] d
    by (simp add: n getFirstSix_take digitsValue_year)
qed

section \<open>Running the validator on a cleaned value\<close>

lemma validate_cleaned:
  assumes "clean cu input = (number, None)"
  shows "validate cu now input =
         Inr (if \<not> isdigits number \<or> jsLessEq (parseInt number) 0 then Invalid InvalidFormat
              else if length number \<noteq> 11 then Invalid InvalidLength
              else if \<not> validStructure now number then Invalid InvalidFormat
              else if \<not> validChecksum now number then Invalid InvalidChecksum
              else Valid number True False)"
  using assms by (simp add: validate_def compact_def)

lemma positive_digits:
  assumes "isdigits number"
  shows "jsLessEq (parseInt number) 0 = (digitsValue number \<le> 0)"
  using assms by (simp add: parseInt_digits jsLessEq_def)

section \<open>Sample runs\<close>

text \<open>
  The clock of the sample runs is 2025-11-03T00:00:00Z.  The number 85031512369 (born
  1985-03-15, \<open>850315123 mod 97 = 28\<close>, checksum \<open>69\<close>) is valid.
\<close>

lemmas eval_defs = isdigits_def isDigitChar_def digitsValue_def digitValue_def
  isCalendarDate_def daysInMonth_def isLeapYear_def daysFromCivil_def

lemma clean_deleteChars_samples:
  "clean deleteChars ''85031512369'' = (''85031512369'', None)"
  "clean deleteChars ''85.03.15-123.69'' = (''85031512369'', None)"
  "clean deleteChars ''00000000000'' = (''00000000000'', None)"
  "clean deleteChars ''850230-12345'' = (''85023012345'', None)"
  "clean deleteChars ''1234567890'' = (''1234567890'', None)"
  "clean deleteChars ''abc'' = (''abc'', None)"
  "clean deleteChars ''0000'' = (''0000'', None)"
  by (simp_all add: clean_def deleteChars_def)

lemma sample_bases:
  "getChecksumBases 1762128000000 ''85031512369'' = [Some 850315123]"
  by (simp add: getChecksumBases_number toChecksumBasis_digits eval_defs)

lemma sample_structure: "validStructure 1762128000000 ''85031512369''"
  by (simp add: validStructure_number eval_defs)

lemma sample_checksum: "validChecksum 1762128000000 ''85031512369''"
  by (simp add: validChecksum_number sample_bases eval_defs)

lemma sample_valid:
  "validate deleteChars 1762128000000 ''85.03.15-123.69'' = Inr (Valid ''85031512369'' True False)"
  "validate deleteChars 1762128000000 ''85031512369'' = Inr (Valid ''85031512369'' True False)"
  by (simp_all add: validate_cleaned [OF clean_deleteChars_samples(2)]
      validate_cleaned [OF clean_deleteChars_samples(1)]
      positive_digits sample_structure sample_checksum eval_defs)

text \<open>The all-zero number has no positive value and is rejected by the first guard.\<close>

lemma zero_validate:
  "validate deleteChars 1762128000000 ''00000000000'' = Inr (Invalid InvalidFormat)"
  by (simp add: validate_cleaned [OF clean_deleteChars_samples(3)] positive_digits eval_defs)

lemmas cutoff_defs = utcMidnight_def MS_PER_DAY_def getApproximatelyNow_def ONE_DAY_def

lemma clean_deleteChars_more:
  "clean deleteChars ''20010212379'' = (''20010212379'', None)"
  "clean deleteChars ''850015-12345'' = (''85001512345'', None)"
  by (simp_all add: clean_def deleteChars_def)

text \<open>
  A run at the cutoff: the clock is 2020-01-01T00:00:00Z (1577836800000), so that
  2020-01-02 is exactly one day ahead.
\<close>

lemma boundary_dates:
  "getValidPastDates 1577836800000 (getFirstSix ''20010212379'') = [''1920-01-02'', ''2020-01-02'']"
  by (simp add: getValidPastDates_number numToString_def showDigits.simps digitChar_def
      eval_defs cutoff_defs)

lemma boundary_bases:
  "getChecksumBases 1577836800000 ''20010212379'' = [Some 200102123, Some 2200102123]"
  by (simp add: getChecksumBases_number toChecksumBasis_digits eval_defs)

lemma boundary_checksum: "validChecksum 1577836800000 ''20010212379''"
proof -
  have n: "isdigits ''20010212379''" "length ''20010212379'' = 11"
    by (simp_all add: eval_defs)
  have "Some 2200102123 \<in> set (getChecksumBases 1577836800000 ''20010212379'')"
    by (simp add: boundary_bases)
  moreover have "(2200102123 :: int) mod 97 + digitsValue (drop 9 ''20010212379'') = 97"
    by (simp add: eval_defs)
  ultimately show ?thesis
    unfolding validChecksum_number [OF n] by blast
qed

lemma boundary_validate:
  "validate deleteChars 1577836800000 ''20010212379'' = Inr (Valid ''20010212379'' True False)"
  by (simp add: validate_cleaned [OF clean_deleteChars_more(1)] positive_digits
      validStructure_number boundary_checksum eval_defs)

section \<open>Cleaning errors\<close>

text \<open>
  C7.  \<open>validate\<close> calls \<open>compact\<close> with no handler around it: whenever the cleaning
  step reports an error, that error leaves \<open>validate\<close> as a thrown error (\<open>Inl\<close>), not as
  a tagged \<open>{isValid: false}\<close> result.
\<close>

theorem validate_propagates_cleaning_error:
  assumes "clean cleanUnicode input = (v, Some err)"
  shows "validate cleanUnicode now input = Inl err"
  using assms by (simp add: validate_def compact_def)

theorem validate_propagates_cleaning_error_witness:
  "clean (\<lambda>v d. (''85'', Some InvalidFormat)) ''85#'' = (''85'', Some InvalidFormat) \<and>
   validate (\<lambda>v d. (''85'', Some InvalidFormat)) 0 ''85#'' = Inl InvalidFormat"
  using validate_propagates_cleaning_error
    [of "\<lambda>v d. (''85'', Some InvalidFormat)" "''85#''" "''85''" InvalidFormat 0]
  by (simp add: clean_def)

text \<open>
  C8.  When the cleaning step reports an error, \<open>compact\<close> throws that error while
  \<open>format\<close> drops it and returns the value the cleaning utility produced; when the
  input cleans without error, both return the cleaned value.
\<close>

theorem compact_throws_format_discards:
  "(clean cleanUnicode input = (v, Some err) \<longrightarrow>
      compact cleanUnicode input = Inl err \<and> format cleanUnicode input = v) \<and>
   (clean cleanUnicode input = (v, None) \<longrightarrow>
      compact cleanUnicode input = Inr v \<and> format cleanUnicode input = v)"
  by (simp add: compact_def format_def)

theorem compact_throws_format_discards_witness:
  "clean (\<lambda>v d. (''85'', Some InvalidFormat)) ''85#'' = (''85'', Some InvalidFormat) \<and>
   compact (\<lambda>v d. (''85'', Some InvalidFormat)) ''85#'' = Inl InvalidFormat \<and>
   format (\<lambda>v d. (''85'', Some InvalidFormat)) ''85#'' = ''85'' \<and>
   clean (deleteChars :: ValidationError cleaner) ''85.03.15-123.69'' = (''85031512369'', None) \<and>
   compact (deleteChars :: ValidationError cleaner) ''85.03.15-123.69'' = Inr ''85031512369'' \<and>
   format (deleteChars :: ValidationError cleaner) ''85.03.15-123.69'' = ''85031512369''"
  using compact_throws_format_discards
    [of "\<lambda>v d. (''85'', Some InvalidFormat)" "''85#''" "''85''" InvalidFormat]
    compact_throws_format_discards
    [of "deleteChars :: ValidationError cleaner" "''85.03.15-123.69''" "''85031512369''" InvalidFormat]
  by (simp add: clean_def deleteChars_def)

section \<open>The successful result\<close>

text \<open>
  C9.  When \<open>validate\<close> succeeds on \<open>x\<close>, the \<open>compact\<close> field of the result is
  \<open>compact(x)\<close>, \<open>isIndividual\<close> is true and \<open>isCompany\<close> is false.  Validating that
  compact value again gives the same successful result, provided the cleaning utility leaves
  the already-clean value as it is.
\<close>

theorem validate_success_compact:
  assumes "validate cleanUnicode now x = Inr r" "isValid r"
  shows "compact cleanUnicode x = Inr (compactOf r) \<and> isIndividual r \<and> \<not> isCompany r \<and>
         (clean cleanUnicode (compactOf r) = (compactOf r, None) \<longrightarrow>
            validate cleanUnicode now (compactOf r) = Inr r)"
proof -
  from assms(1) obtain number where c: "compact cleanUnicode x = Inr number"
    by (auto simp: validate_def split: sum.splits)
  then have cl: "clean cleanUnicode x = (number, None)"
    by (auto simp: compact_def split: prod.splits option.splits)
  have r: "r = Valid number True False"
    using assms by (auto simp: validate_cleaned [OF cl] split: if_splits)
  have "validate cleanUnicode now number = Inr r"
    if "clean cleanUnicode number = (number, None)"
    using assms(1) by (simp add: validate_cleaned [OF cl] validate_cleaned [OF that])
  then show ?thesis by (simp add: c r)
qed

theorem validate_success_compact_witness:
  "validate (deleteChars :: ValidationError cleaner) 1762128000000 ''85.03.15-123.69''
     = Inr (Valid ''85031512369'' True False) \<and>
   isValid (Valid ''85031512369'' True False) \<and>
   compact (deleteChars :: ValidationError cleaner) ''85.03.15-123.69'' = Inr ''85031512369'' \<and>
   clean (deleteChars :: ValidationError cleaner) ''85031512369'' = (''85031512369'', None) \<and>
   validate (deleteChars :: ValidationError cleaner) 1762128000000 ''85031512369''
     = Inr (Valid ''85031512369'' True False)"
  using validate_success_compact [of "deleteChars :: ValidationError cleaner" 1762128000000
      "''85.03.15-123.69''" "Valid ''85031512369'' True False"]
  by (simp add: sample_valid clean_deleteChars_samples)

section \<open>The order of the checks\<close>

text \<open>
  C3.  A cleaned value of a length other than 11 is not always answered with
  \<open>InvalidLength\<close>: the digits test and the test for a positive value come first, so
  \<open>abc\<close> and \<open>0000\<close> are answered with \<open>InvalidFormat\<close>.
\<close>

theorem wrong_length_counterexample:
  "clean (deleteChars :: ValidationError cleaner) ''abc'' = (''abc'', None) \<and>
   length ''abc'' \<noteq> 11 \<and>
   validate (deleteChars :: ValidationError cleaner) 1762128000000 ''abc''
     = Inr (Invalid InvalidFormat) \<and>
   clean (deleteChars :: ValidationError cleaner) ''0000'' = (''0000'', None) \<and>
   length ''0000'' \<noteq> 11 \<and>
   validate (deleteChars :: ValidationError cleaner) 1762128000000 ''0000''
     = Inr (Invalid InvalidFormat)"
  by (simp add: validate_cleaned [OF clean_deleteChars_samples(6)]
      validate_cleaned [OF clean_deleteChars_samples(7)] clean_deleteChars_samples
      positive_digits eval_defs)

text \<open>
  C3, as the code has it.  A cleaned value that is all digits, has a positive value and
  a length other than 11 is answered with \<open>InvalidLength\<close>.
\<close>

theorem wrong_length_of_positive_digits:
  assumes "clean cleanUnicode input = (number, None)"
    and "isdigits number" and "0 < digitsValue number" and "length number \<noteq> 11"
  shows "validate cleanUnicode now input = Inr (Invalid InvalidLength)"
  using assms by (simp add: validate_cleaned positive_digits)

theorem wrong_length_of_positive_digits_witness:
  "clean (deleteChars :: ValidationError cleaner) ''1234567890'' = (''1234567890'', None) \<and>
   isdigits ''1234567890'' \<and> 0 < digitsValue ''1234567890'' \<and> length ''1234567890'' \<noteq> 11 \<and>
   validate (deleteChars :: ValidationError cleaner) 1762128000000 ''1234567890''
     = Inr (Invalid InvalidLength)"
  using wrong_length_of_positive_digits [of "deleteChars :: ValidationError cleaner"
      "''1234567890''" "''1234567890''" 1762128000000]
  by (simp add: clean_deleteChars_samples eval_defs)

section \<open>The checksum decides\<close>

text \<open>
  C1.  For every cleaned eleven-digit number that passes the structural check (all
  digits, a positive value, length 11, and first six digits that are a plausible date of
  birth), \<open>validate\<close> succeeds exactly when some candidate basis \<open>b\<close> satisfies
  \<open>b mod 97 + checksum = 97\<close>, the checksum being the integer read from the last two
  digits; when no candidate basis does, it answers \<open>InvalidChecksum\<close>.
\<close>

theorem checksum_decides:
  assumes "clean cleanUnicode input = (number, None)"
    and "isdigits number" and "0 < digitsValue number" and "length number = 11"
    and "validStructure now number"
  shows "validate cleanUnicode now input =
         Inr (if \<exists>b. Some b \<in> set (getChecksumBases now number) \<and>
                     b mod 97 + digitsValue (drop 9 number) = 97
              then Valid number True False
              else Invalid InvalidChecksum)"
  using assms validChecksum_number [OF assms(2,4), of now]
  by (simp add: validate_cleaned positive_digits)

theorem checksum_decides_witness:
  "clean (deleteChars :: ValidationError cleaner) ''85.03.15-123.69'' = (''85031512369'', None) \<and>
   isdigits ''85031512369'' \<and> 0 < digitsValue ''85031512369'' \<and> length ''85031512369'' = 11 \<and>
   validStructure 1762128000000 ''85031512369'' \<and>
   Some 850315123 \<in> set (getChecksumBases 1762128000000 ''85031512369'') \<and>
   (850315123 :: int) mod 97 + digitsValue (drop 9 ''85031512369'') = 97 \<and>
   validate (deleteChars :: ValidationError cleaner) 1762128000000 ''85.03.15-123.69''
     = Inr (Valid ''85031512369'' True False)"
  using checksum_decides [of "deleteChars :: ValidationError cleaner" "''85.03.15-123.69''"
      "''85031512369''" 1762128000000]
  by (simp add: clean_deleteChars_samples sample_structure sample_bases eval_defs)

section \<open>The checksum basis\<close>

text \<open>
  C2.  For every candidate year and nine-digit base number, the checksum basis is the
  base number read as an integer when the year is below 2000, and the base number with
  the digit 2 in front read as an integer (two thousand million more) from 2000 on.
\<close>

theorem checksum_basis_by_century:
  assumes "isdigits baseNumber" and "length baseNumber = 9"
  shows "(year < 2000 \<longrightarrow>
            toChecksumBasis (Some year) baseNumber = parseInt baseNumber \<and>
            parseInt baseNumber = Some (digitsValue baseNumber)) \<and>
         (2000 \<le> year \<longrightarrow>
            toChecksumBasis (Some year) baseNumber = parseInt (''2'' @ baseNumber) \<and>
            parseInt (''2'' @ baseNumber) = Some (2000000000 + digitsValue baseNumber))"
proof -
  have "isdigits (''2'' @ baseNumber)"
    using assms(1) by (simp add: isdigits_def)
  then have "parseInt (''2'' @ baseNumber) = Some (digitsValue (CHR ''2'' # baseNumber))"
    using parseInt_digits by fastforce
  then show ?thesis
    using assms
    by (simp add: toChecksumBasis_def jsLess_def parseInt_digits digitsValue_Cons digitValue_def)
qed

theorem checksum_basis_by_century_witness:
  "isdigits ''850315123'' \<and> length ''850315123'' = 9 \<and>
   toChecksumBasis (Some 1985) ''850315123'' = Some 850315123 \<and>
   toChecksumBasis (Some 2085) ''850315123'' = Some 2850315123"
  using checksum_basis_by_century [of "''850315123''" 1985]
    checksum_basis_by_century [of "''850315123''" 2085]
  by (simp add: eval_defs)

section \<open>The future cutoff\<close>

text \<open>
  C4.  A date exactly one day ahead of the clock is not rejected.  \<open>isInPast\<close> compares
  with \<open><=\<close>: with the clock at 2020-01-01T00:00:00Z the date 2020-01-02 counts as
  past, stays among the valid past dates of 200102, and the number 20010212379, whose
  checksum only fits the basis of the year 2020, is valid.  Likewise the year 2020 is a
  candidate year when the clock is at 2019-12-31T00:00:00Z.
\<close>

theorem cutoff_counterexample:
  "dateParse ''2020-01-02'' = Some (utcMidnight 2020 1 2) \<and>
   utcMidnight 2020 1 2 = 1577836800000 + ONE_DAY \<and>
   isInPast 1577836800000 (Str ''2020-01-02'') \<and>
   getValidPastDates 1577836800000 (getFirstSix ''20010212379'') = [''1920-01-02'', ''2020-01-02''] \<and>
   getChecksumBases 1577836800000 ''20010212379'' = [Some 200102123, Some 2200102123] \<and>
   validate (deleteChars :: ValidationError cleaner) 1577836800000 ''20010212379''
     = Inr (Valid ''20010212379'' True False) \<and>
   dateParse (toTemplate (Num (Some 2020))) = Some (utcMidnight 2020 1 1) \<and>
   utcMidnight 2020 1 1 = 1577750400000 + ONE_DAY \<and>
   isInPast 1577750400000 (Num (Some 2020)) \<and>
   getChecksumBasesUnknownDob 1577750400000 ''200015'' ''200015123''
     = [Some 200015123, Some 2200015123]"
proof -
  have d1: "dateParse ''2020-01-02'' = Some (utcMidnight 2020 1 2)"
    by (simp add: dateParse_def eval_defs)
  have t1: "utcMidnight 2020 1 2 = 1577836800000 + ONE_DAY"
    by (simp add: daysFromCivil_def cutoff_defs)
  have s: "numToString (Some 2020) = ''2020''"
    by (simp add: numToString_def showDigits.simps digitChar_def)
  have d2: "dateParse ''2020'' = Some (utcMidnight 2020 1 1)"
    by (simp add: dateParse_def eval_defs)
  have t2: "utcMidnight 2020 1 1 = 1577750400000 + ONE_DAY"
    by (simp add: daysFromCivil_def cutoff_defs)
  have u: "getChecksumBasesUnknownDob 1577750400000 ''200015'' ''200015123''
     = [Some 200015123, Some 2200015123]"
    by (simp add: getChecksumBasesUnknownDob_digits toChecksumBasis_digits eval_defs)
  show ?thesis
    by (simp add: isInPast_def d1 t1 s d2 t2 u getApproximatelyNow_def boundary_dates
        boundary_bases boundary_validate)
qed

text \<open>
  C4, as the code has it.  In the structural date check and in the filtering of the
  candidate years, a date is treated as future and rejected exactly when its midnight
  (UTC) lies strictly after the clock plus one day; a date at the cutoff or before it
  counts as a valid past date.
\<close>

theorem future_cutoff_is_inclusive:
  assumes "isdigits number" and "length number = 11"
  shows "getValidPastDates now (getFirstSix number) =
         map (\<lambda>y. numToString (Some y) @ ''-'' @ take 2 (drop 2 number) @ ''-'' @ take 2 (drop 4 number))
           (filter (\<lambda>y. isCalendarDate y (digitsValue (take 2 (drop 2 number)))
                          (digitsValue (take 2 (drop 4 number))) \<and>
                        utcMidnight y (digitsValue (take 2 (drop 2 number)))
                          (digitsValue (take 2 (drop 4 number))) \<le> now + ONE_DAY)
              [1900 + digitsValue (take 2 number), 2000 + digitsValue (take 2 number)]) \<and>
         getChecksumBasesUnknownDob now (getFirstSix number) (getBaseNumber number) =
         map (\<lambda>y. toChecksumBasis (Some y) (getBaseNumber number))
           (filter (\<lambda>y. utcMidnight y 1 1 \<le> now + ONE_DAY)
              [1900 + digitsValue (take 2 number), 2000 + digitsValue (take 2 number)])"
  using getValidPastDates_number [OF assms, of now]
    getChecksumBasesUnknownDob_number [OF assms, of now "getBaseNumber number"]
  by (simp add: getApproximatelyNow_def)

theorem future_cutoff_is_inclusive_witness:
  "isdigits ''20010212379'' \<and> length ''20010212379'' = 11 \<and>
   getValidPastDates 1577836800000 (getFirstSix ''20010212379'') = [''1920-01-02'', ''2020-01-02''] \<and>
   getValidPastDates 1577836799999 (getFirstSix ''20010212379'') = [''1920-01-02''] \<and>
   getChecksumBasesUnknownDob 1577750400000 (getFirstSix ''20010212379'') (getBaseNumber ''20010212379'')
     = [Some 200102123, Some 2200102123] \<and>
   getChecksumBasesUnknownDob 1577750399999 (getFirstSix ''20010212379'') (getBaseNumber ''20010212379'')
     = [Some 200102123]"
  using future_cutoff_is_inclusive [of "''20010212379''" 1577836800000]
    future_cutoff_is_inclusive [of "''20010212379''" 1577836799999]
    future_cutoff_is_inclusive [of "''20010212379''" 1577750400000]
    future_cutoff_is_inclusive [of "''20010212379''" 1577750399999]
  by (simp add: numToString_def showDigits.simps digitChar_def getBaseNumber_take
      toChecksumBasis_digits eval_defs cutoff_defs)


section \<open>The unknown date of birth\<close>

text \<open>
  C5.  For every cleaned all-digit number of 11 characters whose month field is \<open>00\<close>,
  the structural check accepts the number whatever the year and day fields are, and the
  checksum is checked against the bases built from both century expansions of the year
  field that are not in the future.  (\<open>validate\<close> gets as far as these two checks when
  the value is positive.)
\<close>

theorem unknown_dob_structure_and_bases:
  assumes "isdigits number" and "length number = 11"
    and "toDateArray (getFirstSix number) ! 1 = ''00''"
  shows "isUnknownDob (getFirstSix number) \<and> validStructure now number \<and>
         getChecksumBases now number =
           map (\<lambda>y. toChecksumBasis (Some y) (getBaseNumber number))
             (filter (\<lambda>y. utcMidnight y 1 1 \<le> getApproximatelyNow now)
                [1900 + digitsValue (take 2 number), 2000 + digitsValue (take 2 number)]) \<and>
         validChecksum now number =
           (\<exists>b. Some b \<in> set (getChecksumBases now number) \<and>
                b mod 97 + digitsValue (drop 9 number) = 97) \<and>
         (clean cleanUnicode input = (number, None) \<and> 0 < digitsValue number \<longrightarrow>
            validate cleanUnicode now input =
              Inr (if validChecksum now number then Valid number True False
                   else Invalid InvalidChecksum))"
proof -
  have mm: "take 2 (drop 2 number) = ''00''"
    using assms(3) by (simp add: toDateArray_number [OF assms(2)])
  then have u: "isUnknownDob (getFirstSix number)"
    by (simp add: isUnknownDob_number [OF assms(1,2)])
  then have v: "validStructure now number"
    by (simp add: validStructure_def isValidFirstSix_def)
  have b: "getChecksumBases now number =
           map (\<lambda>y. toChecksumBasis (Some y) (getBaseNumber number))
             (filter (\<lambda>y. utcMidnight y 1 1 \<le> getApproximatelyNow now)
                [1900 + digitsValue (take 2 number), 2000 + digitsValue (take 2 number)])"
    using u getChecksumBasesUnknownDob_number [OF assms(1,2)]
    by (simp add: getChecksumBases_def)
  have r: "validate cleanUnicode now input =
              Inr (if validChecksum now number then Valid number True False
                   else Invalid InvalidChecksum)"
    if "clean cleanUnicode input = (number, None)" "0 < digitsValue number"
    using that assms(1,2) v by (simp add: validate_cleaned positive_digits)
  show ?thesis
    using u v b r validChecksum_number [OF assms(1,2), of now] by blast
qed

theorem unknown_dob_structure_and_bases_witness:
  "isdigits ''85001512345'' \<and> length ''85001512345'' = 11 \<and>
   toDateArray (getFirstSix ''85001512345'') ! 1 = ''00'' \<and>
   validStructure 1762128000000 ''85001512345'' \<and>
   getChecksumBases 1762128000000 ''85001512345'' = [Some 850015123] \<and>
   \<not> validChecksum 1762128000000 ''85001512345'' \<and>
   clean (deleteChars :: ValidationError cleaner) ''850015-12345'' = (''85001512345'', None) \<and>
   0 < digitsValue ''85001512345'' \<and>
   validate (deleteChars :: ValidationError cleaner) 1762128000000 ''850015-12345''
     = Inr (Invalid InvalidChecksum) \<and>
   isdigits ''05003012345'' \<and> length ''05003012345'' = 11 \<and>
   toDateArray (getFirstSix ''05003012345'') ! 1 = ''00'' \<and>
   validStructure 1762128000000 ''05003012345'' \<and>
   getChecksumBases 1762128000000 ''05003012345'' = [Some 50030123, Some 2050030123]"
  using unknown_dob_structure_and_bases [of "''85001512345''" 1762128000000
      "deleteChars :: ValidationError cleaner" "''850015-12345''"]
    unknown_dob_structure_and_bases [of "''05003012345''" 1762128000000
      "deleteChars :: ValidationError cleaner" "''05003012345''"]
  by (simp add: getFirstSix_take getBaseNumber_take toDateArray_six toChecksumBasis_digits
      clean_def deleteChars_def eval_defs cutoff_defs)

section \<open>Impossible dates\<close>

text \<open>
  C6.  For every cleaned all-digit number of 11 characters whose first six digits do not
  match the unknown-date-of-birth pattern and form no calendar date under either century
  expansion of the year field (such as month 02, day 30), \<open>validate\<close> answers
  \<open>InvalidFormat\<close>.
\<close>

theorem impossible_date_is_invalid_format:
  assumes "clean cleanUnicode input = (number, None)"
    and "isdigits number" and "length number = 11"
    and "\<not> isUnknownDob (getFirstSix number)"
    and "\<not> isValidDateCompactYYYYMMDD (''19'' @ getFirstSix number)"
    and "\<not> isValidDateCompactYYYYMMDD (''20'' @ getFirstSix number)"
  shows "validate cleanUnicode now input = Inr (Invalid InvalidFormat)"
proof -
  have c19: "\<not> isCalendarDate (1900 + digitsValue (take 2 number))
             (digitsValue (take 2 (drop 2 number))) (digitsValue (take 2 (drop 4 number)))"
    using assms(5) unfolding isValidDateCompactYYYYMMDD_number(1) [OF assms(2,3)] .
  have c20: "\<not> isCalendarDate (2000 + digitsValue (take 2 number))
             (digitsValue (take 2 (drop 2 number))) (digitsValue (take 2 (drop 4 number)))"
    using assms(6) unfolding isValidDateCompactYYYYMMDD_number(2) [OF assms(2,3)] .
  have "\<not> validStructure now number"
    using assms(4) c19 c20 by (simp add: validStructure_number [OF assms(2,3)])
  then show ?thesis
    using assms(3) by (simp add: validate_cleaned [OF assms(1)])
qed

theorem impossible_date_is_invalid_format_witness:
  "clean (deleteChars :: ValidationError cleaner) ''850230-12345'' = (''85023012345'', None) \<and>
   isdigits ''85023012345'' \<and> length ''85023012345'' = 11 \<and>
   \<not> isUnknownDob (getFirstSix ''85023012345'') \<and>
   \<not> isValidDateCompactYYYYMMDD (''19'' @ getFirstSix ''85023012345'') \<and>
   \<not> isValidDateCompactYYYYMMDD (''20'' @ getFirstSix ''85023012345'') \<and>
   validate (deleteChars :: ValidationError cleaner) 1762128000000 ''850230-12345''
     = Inr (Invalid InvalidFormat)"
  using impossible_date_is_invalid_format [of "deleteChars :: ValidationError cleaner"
      "''850230-12345''" "''85023012345''" 1762128000000]
  by (simp add: clean_def deleteChars_def isUnknownDob_digits getFirstSix_take
      isValidDateCompactYYYYMMDD_def splitAt_def parseInt_def eval_defs)

section \<open>The candidate bases\<close>

text \<open>
  C10.  For every number of 11 digits, the two-digit year is expanded to the two years
  \<open>1900 + yy\<close> and \<open>2000 + yy\<close> only, and the checksum check tests at most two bases,
  each the basis of one of these two years, whether the date of birth is known or not.
\<close>

theorem at_most_two_candidate_bases:
  assumes "isdigits number" and "length number = 11"
  shows "getFullYears (toDateArray (getFirstSix number) ! 0) =
           [Some (1900 + digitsValue (take 2 number)), Some (2000 + digitsValue (take 2 number))] \<and>
         length (getChecksumBases now number) \<le> 2 \<and>
         set (getChecksumBases now number) \<subseteq>
           {toChecksumBasis (Some (1900 + digitsValue (take 2 number))) (getBaseNumber number),
            toChecksumBasis (Some (2000 + digitsValue (take 2 number))) (getBaseNumber number)}"
proof -
  have "getFullYears (toDateArray (getFirstSix number) ! 0) =
           [Some (1900 + digitsValue (take 2 number)), Some (2000 + digitsValue (take 2 number))]"
    by (simp add: toDateArray_number [OF assms(2)] getFullYears_number [OF assms])
  moreover have "length (getChecksumBases now number) \<le> 2"
    unfolding getChecksumBases_number [OF assms] length_map
    by (rule order_trans [OF length_filter_le]) simp
  moreover have "set (getChecksumBases now number) \<subseteq>
           {toChecksumBasis (Some (1900 + digitsValue (take 2 number))) (getBaseNumber number),
            toChecksumBasis (Some (2000 + digitsValue (take 2 number))) (getBaseNumber number)}"
    unfolding getChecksumBases_number [OF assms] getBaseNumber_take by auto
  ultimately show ?thesis by blast
qed

theorem at_most_two_candidate_bases_witness:
  "isdigits ''85031512369'' \<and> length ''85031512369'' = 11 \<and>
   getFullYears (toDateArray (getFirstSix ''85031512369'') ! 0) = [Some 1985, Some 2085] \<and>
   length (getChecksumBases 1762128000000 ''85031512369'') \<le> 2 \<and>
   set (getChecksumBases 1762128000000 ''85031512369'') \<subseteq> {Some 850315123, Some 2850315123}"
  using at_most_two_candidate_bases [of "''85031512369''" 1762128000000]
  by (simp add: getBaseNumber_take toChecksumBasis_digits eval_defs)

end
